theory Spec2Isabelle
  imports Main "HOL-Library.Char_ord" "HOL-Library.List_Lexorder" "HOL-Library.Product_Lexorder"
begin

section \<open>Ticket store\<close>

text \<open>
  One row of the \<open>tickets\<close> table after the cleaning done by \<open>load_all_data\<close>:
  \<open>Seq\<close> is numeric or NaN (\<open>None\<close>), \<open>Timestamp\<close> is a string or null, \<open>Admit\<close> and
  \<open>Visitor_Seats\<close> are whole numbers. The frame's index is the default range index, so a
  row label is the row's position in the list.
\<close>

record ticket =
  TicketID :: string
  Type :: string
  Category :: string
  Admit :: int
  Seq :: "int option"
  Sold :: bool
  Customer :: string
  Visited :: bool
  Visitor_Seats :: int
  Timestamp :: "string option"

text \<open>One row of the \<open>menu\<close> table; \<open>Series\<close> may be null.\<close>

record menu_row =
  m_Type :: string
  m_Category :: string
  m_Series :: "string option"
  m_Admit :: int
  m_Alloc :: int
  m_Total_Capacity :: int

datatype error = IndexError | NotOffered | OutOfRange | ValueError | WrongPassword

subsection \<open>Row selection\<close>

text \<open>\<open>df.index[mask][0]\<close>: the position of the first row satisfying the mask.\<close>

fun find_index :: "('a \<Rightarrow> bool) \<Rightarrow> 'a list \<Rightarrow> nat option" where
  "find_index P [] = None"
| "find_index P (x # xs) = (if P x then Some 0 else map_option Suc (find_index P xs))"

definition first_row :: "ticket list \<Rightarrow> string \<Rightarrow> error + nat" where
  "first_row tickets tid =
     (case find_index (\<lambda>t. TicketID t = tid) tickets of
        None \<Rightarrow> Inl IndexError
      | Some idx \<Rightarrow> Inr idx)"

text \<open>
  The category select box of the Sales and Visitors tabs lists
  \<open>menu[menu['Type'] == s_type]['Category']\<close>; the type radio offers Public and Guest.
\<close>

definition type_options :: "string list" where
  "type_options = [''Public'', ''Guest'']"

definition category_options :: "menu_row list \<Rightarrow> string \<Rightarrow> string list" where
  "category_options menu s_type = map m_Category (filter (\<lambda>m. m_Type m = s_type) menu)"

definition selectable :: "menu_row list \<Rightarrow> string \<Rightarrow> string \<Rightarrow> bool" where
  "selectable menu s_type s_cat \<longleftrightarrow>
     s_type \<in> set type_options \<and> s_cat \<in> set (category_options menu s_type)"

subsection \<open>Sale engine\<close>

definition avail :: "ticket list \<Rightarrow> string \<Rightarrow> string \<Rightarrow> string list" where
  "avail tickets s_type s_cat =
     map TicketID (filter (\<lambda>t. Type t = s_type \<and> Category t = s_cat \<and> \<not> Sold t) tickets)"

text \<open>The three assignments of the manual sale, at the row \<open>idx\<close>.\<close>

definition sale_mutation :: "ticket list \<Rightarrow> string \<Rightarrow> string \<Rightarrow> string \<Rightarrow> error + ticket list" where
  "sale_mutation tickets tid cust now =
     (case first_row tickets tid of
        Inl e \<Rightarrow> Inl e
      | Inr idx \<Rightarrow>
          Inr (tickets[idx := (tickets ! idx)\<lparr>Sold := True, Customer := cust, Timestamp := Some now\<rparr>]))"

definition manual_sale ::
  "menu_row list \<Rightarrow> ticket list \<Rightarrow> string \<Rightarrow> string \<Rightarrow> string \<Rightarrow> string \<Rightarrow> string \<Rightarrow> error + ticket list" where
  "manual_sale menu tickets s_type s_cat tid cust now =
     (if selectable menu s_type s_cat \<and> tid \<in> set (avail tickets s_type s_cat)
      then sale_mutation tickets tid cust now
      else Inl NotOffered)"

definition sold_list :: "ticket list \<Rightarrow> string list" where
  "sold_list tickets = map TicketID (filter Sold tickets)"

definition reverse_sale_mutation :: "ticket list \<Rightarrow> string \<Rightarrow> error + ticket list" where
  "reverse_sale_mutation tickets rev_tid =
     (case first_row tickets rev_tid of
        Inl e \<Rightarrow> Inl e
      | Inr idx \<Rightarrow>
          Inr (tickets[idx := (tickets ! idx)\<lparr>Sold := False, Customer := [], Timestamp := None\<rparr>]))"

definition reverse_sale :: "ticket list \<Rightarrow> string \<Rightarrow> error + ticket list" where
  "reverse_sale tickets rev_tid =
     (if rev_tid \<in> set (sold_list tickets)
      then reverse_sale_mutation tickets rev_tid
      else Inl NotOffered)"

subsection \<open>Visitor check-in engine\<close>

definition elig :: "ticket list \<Rightarrow> string \<Rightarrow> string \<Rightarrow> string list" where
  "elig tickets v_type v_cat =
     map TicketID
       (filter (\<lambda>t. Type t = v_type \<and> Category t = v_cat \<and> Sold t \<and> \<not> Visited t) tickets)"

text \<open>
  \<open>st.number_input(label, 1, max_v, max_v)\<close>: the widget raises when its default lies below
  its minimum, and otherwise only ever returns a value between its bounds; a count outside
  them does not reach the form's submit branch.
\<close>

definition number_input :: "int \<Rightarrow> int \<Rightarrow> int \<Rightarrow> int \<Rightarrow> error + int" where
  "number_input min_value max_value dflt entered =
     (if dflt < min_value \<or> max_value < dflt then Inl ValueError
      else if entered < min_value \<or> max_value < entered then Inl OutOfRange
      else Inr entered)"

definition checkin_mutation :: "ticket list \<Rightarrow> string \<Rightarrow> int \<Rightarrow> string \<Rightarrow> error + ticket list" where
  "checkin_mutation tickets tid v_count now =
     (case first_row tickets tid of
        Inl e \<Rightarrow> Inl e
      | Inr idx \<Rightarrow>
          Inr (tickets[idx := (tickets ! idx)
                 \<lparr>Visited := True, Visitor_Seats := v_count, Timestamp := Some now\<rparr>]))"

definition checkin ::
  "menu_row list \<Rightarrow> ticket list \<Rightarrow> string \<Rightarrow> string \<Rightarrow> string \<Rightarrow> int \<Rightarrow> string \<Rightarrow> error + ticket list" where
  "checkin menu tickets v_type v_cat tid entered now =
     (if selectable menu v_type v_cat \<and> tid \<in> set (elig tickets v_type v_cat)
      then (case first_row tickets tid of
              Inl e \<Rightarrow> Inl e
            | Inr i \<Rightarrow>
                (let max_v = Admit (tickets ! i) in
                 case number_input 1 max_v max_v entered of
                   Inl e \<Rightarrow> Inl e
                 | Inr v_count \<Rightarrow> checkin_mutation tickets tid v_count now))
      else Inl NotOffered)"

definition visited_list :: "ticket list \<Rightarrow> string list" where
  "visited_list tickets = map TicketID (filter Visited tickets)"

definition reverse_visitor_mutation :: "ticket list \<Rightarrow> string \<Rightarrow> error + ticket list" where
  "reverse_visitor_mutation tickets rev_v_tid =
     (case first_row tickets rev_v_tid of
        Inl e \<Rightarrow> Inl e
      | Inr idx \<Rightarrow>
          Inr (tickets[idx := (tickets ! idx)\<lparr>Visited := False, Visitor_Seats := 0\<rparr>]))"

definition reverse_visitor :: "ticket list \<Rightarrow> string \<Rightarrow> error + ticket list" where
  "reverse_visitor tickets rev_v_tid =
     (if rev_v_tid \<in> set (visited_list tickets)
      then reverse_visitor_mutation tickets rev_v_tid
      else Inl NotOffered)"

subsection \<open>Reset\<close>

definition reset_database :: "ticket list \<Rightarrow> string \<Rightarrow> error + ticket list" where
  "reset_database tickets admin_pass =
     (if admin_pass = ''admin123''
      then Inr (map (\<lambda>t. t\<lparr>Sold := False, Visited := False, Customer := [],
                              Visitor_Seats := 0, Timestamp := None\<rparr>) tickets)
      else Inl WrongPassword)"

subsection \<open>Bulk sale\<close>

text \<open>
  \<open>str.zfill(width)\<close>: a string already \<open>width\<close> long is returned as it is; otherwise zeros
  are put in front, after a leading sign if there is one.
\<close>

definition zfill :: "nat \<Rightarrow> string \<Rightarrow> string" where
  "zfill width s =
     (if width \<le> length s then s
      else (let fill = replicate (width - length s) (CHR ''0'') in
            case s of
              [] \<Rightarrow> fill
            | c # r \<Rightarrow> if c = CHR ''+'' \<or> c = CHR ''-'' then c # fill @ r else fill @ s))"

text \<open>
  One iteration of the upload loop, for a row \<open>(TicketID, CustomerName)\<close>: \<open>match\<close> holds the
  rows with that id that are not sold, and the first of them is written.
\<close>

definition bulk_row :: "ticket list \<Rightarrow> string \<times> string \<Rightarrow> string \<Rightarrow> ticket list" where
  "bulk_row tickets row now =
     (case find_index (\<lambda>t. TicketID t = fst row \<and> \<not> Sold t) tickets of
        None \<Rightarrow> tickets
      | Some idx \<Rightarrow>
          tickets[idx := (tickets ! idx)\<lparr>Sold := True, Customer := snd row, Timestamp := Some now\<rparr>])"

text \<open>
  The loop over the uploaded rows. Every row reads the clock afresh: \<open>clock k\<close> is what
  \<open>pd.Timestamp.now()\<close> gives while row number \<open>k\<close> is processed.
\<close>

fun bulk_loop :: "ticket list \<Rightarrow> (string \<times> string) list \<Rightarrow> (nat \<Rightarrow> string) \<Rightarrow> nat \<Rightarrow> ticket list" where
  "bulk_loop tickets [] clock k = tickets"
| "bulk_loop tickets (row # rows) clock k = bulk_loop (bulk_row tickets row (clock k)) rows clock (Suc k)"

definition normalise_ids :: "(string \<times> string) list \<Rightarrow> (string \<times> string) list" where
  "normalise_ids up_df = map (\<lambda>row. (zfill 4 (fst row), snd row)) up_df"

definition bulk_sale :: "ticket list \<Rightarrow> (string \<times> string) list \<Rightarrow> (nat \<Rightarrow> string) \<Rightarrow> ticket list" where
  "bulk_sale tickets up_df clock = bulk_loop tickets (normalise_ids up_df) clock 0"

subsection \<open>Sessions\<close>

text \<open>
  The actions an operator can take. An action that is not offered, or that a widget refuses,
  writes nothing: the table stays as it was.
\<close>

datatype op =
    ManualSale string string string string string
  | BulkSale "(string \<times> string) list" "nat \<Rightarrow> string"
  | ReverseSale string
  | CheckIn string string string int string
  | ReverseEntry string
  | ResetDatabase string

definition keep :: "ticket list \<Rightarrow> error + ticket list \<Rightarrow> ticket list" where
  "keep tickets r = (case r of Inl e \<Rightarrow> tickets | Inr tickets' \<Rightarrow> tickets')"

fun apply_op :: "menu_row list \<Rightarrow> ticket list \<Rightarrow> op \<Rightarrow> ticket list" where
  "apply_op menu tickets (ManualSale s_type s_cat tid cust now) =
     keep tickets (manual_sale menu tickets s_type s_cat tid cust now)"
| "apply_op menu tickets (BulkSale up_df clock) = bulk_sale tickets up_df clock"
| "apply_op menu tickets (ReverseSale rev_tid) = keep tickets (reverse_sale tickets rev_tid)"
| "apply_op menu tickets (CheckIn v_type v_cat tid entered now) =
     keep tickets (checkin menu tickets v_type v_cat tid entered now)"
| "apply_op menu tickets (ReverseEntry rev_v_tid) = keep tickets (reverse_visitor tickets rev_v_tid)"
| "apply_op menu tickets (ResetDatabase admin_pass) = keep tickets (reset_database tickets admin_pass)"

fun run :: "menu_row list \<Rightarrow> ticket list \<Rightarrow> op list \<Rightarrow> ticket list" where
  "run menu tickets [] = tickets"
| "run menu tickets (a # as) = run menu (apply_op menu tickets a) as"

section \<open>Parsing whole numbers\<close>

text \<open>
  Python's \<open>int(s)\<close> on a string of ASCII characters: blanks around the number are skipped, one
  sign may lead, the digits may be separated by single underscores, and more than 4300 digits
  are refused. Anything else raises ValueError, which is \<open>None\<close> here. Characters beyond ASCII
  are not modelled (they count as neither blank nor digit).
\<close>

definition is_space :: "char \<Rightarrow> bool" where
  "is_space c \<longleftrightarrow> c \<in> set [CHR '' '', CHR 0x09, CHR 0x0A, CHR 0x0B, CHR 0x0C, CHR 0x0D]"

definition is_digit :: "char \<Rightarrow> bool" where
  "is_digit c \<longleftrightarrow> c \<in> set ''0123456789''"

definition digit_val :: "char \<Rightarrow> int" where
  "digit_val c = int (of_char c) - 48"

definition py_strip :: "string \<Rightarrow> string" where
  "py_strip s = rev (dropWhile is_space (rev (dropWhile is_space s)))"

fun digits_ok :: "string \<Rightarrow> bool" where
  "digits_ok [] = False"
| "digits_ok [c] = is_digit c"
| "digits_ok (c # d # r) = (is_digit c \<and> (if d = CHR ''_'' then digits_ok r else digits_ok (d # r)))"

definition digits_value :: "string \<Rightarrow> int" where
  "digits_value ds = foldl (\<lambda>a c. 10 * a + digit_val c) 0 ds"

definition py_int :: "string \<Rightarrow> int option" where
  "py_int s =
     (let t = py_strip s;
          neg = (case t of [] \<Rightarrow> False | c # r \<Rightarrow> c = CHR ''-'');
          body = (case t of [] \<Rightarrow> [] | c # r \<Rightarrow> if c = CHR ''-'' \<or> c = CHR ''+'' then r else t);
          ds = filter is_digit body
      in if digits_ok body \<and> length ds \<le> 4300
         then Some (if neg then - digits_value ds else digits_value ds)
         else None)"

section \<open>Inventory reconciler\<close>

subsection \<open>Sorting by \<open>Seq\<close>\<close>

text \<open>
  A cell of a \<open>Seq\<close> column: a number, a string, or NaN. The lambda of \<open>custom_sort\<close> maps
  \<open>0\<close> and \<open>'0'\<close> to 10 and everything else through \<open>int\<close>, which raises on NaN and on a
  string that is no number.
\<close>

datatype seqv = SeqNum int | SeqStr string | SeqNaN

fun sort_key_of :: "seqv \<Rightarrow> error + int" where
  "sort_key_of (SeqNum x) = Inr (if x = 0 then 10 else x)"
| "sort_key_of (SeqStr x) =
     (if x = ''0'' then Inr 10
      else (case py_int x of None \<Rightarrow> Inl ValueError | Some n \<Rightarrow> Inr n))"
| "sort_key_of SeqNaN = Inl ValueError"

text \<open>\<open>df['Seq'].apply(...)\<close>: the key of every row, in row order; the first failure ends it.\<close>

fun assign_sort_key :: "('a \<Rightarrow> seqv) \<Rightarrow> 'a list \<Rightarrow> error + (int \<times> 'a) list" where
  "assign_sort_key seq [] = Inr []"
| "assign_sort_key seq (row # rows) =
     (case sort_key_of (seq row) of
        Inl e \<Rightarrow> Inl e
      | Inr k \<Rightarrow>
          (case assign_sort_key seq rows of
             Inl e \<Rightarrow> Inl e
           | Inr krows \<Rightarrow> Inr ((k, row) # krows)))"

text \<open>
  \<open>custom_sort\<close>, for a frame whose \<open>Seq\<close> column is \<open>seq_col\<close> (\<open>None\<close> when the frame has
  no such column). Rows with equal keys are kept in their order here; the order pandas
  gives them is not fixed by \<open>sort_values\<close>, and nothing below depends on it.
\<close>

definition custom_sort :: "('a \<Rightarrow> seqv) option \<Rightarrow> 'a list \<Rightarrow> error + 'a list" where
  "custom_sort seq_col df =
     (case seq_col of
        None \<Rightarrow> Inr df
      | Some seq \<Rightarrow>
          (case assign_sort_key seq df of
             Inl e \<Rightarrow> Inl e
           | Inr krows \<Rightarrow> Inr (map snd (sort_key fst krows))))"

subsection \<open>Grouping and aggregation\<close>

type_synonym group_key = "int \<times> string \<times> string \<times> int"

text \<open>
  The group of a ticket is its \<open>(Seq, Type, Category, Admit)\<close>; \<open>groupby\<close> leaves out the
  rows whose key has a NaN, which here can only be \<open>Seq\<close>.
\<close>

definition key_of :: "ticket \<Rightarrow> group_key option" where
  "key_of t = (case Seq t of None \<Rightarrow> None | Some n \<Rightarrow> Some (n, Type t, Category t, Admit t))"

definition group_keys :: "ticket list \<Rightarrow> group_key list" where
  "group_keys df = sort (remdups (List.map_filter key_of df))"

definition members :: "ticket list \<Rightarrow> group_key \<Rightarrow> ticket list" where
  "members df k = filter (\<lambda>t. key_of t = Some k) df"

record agg_row =
  g_Seq :: int
  g_Type :: string
  g_Category :: string
  g_Admit :: int
  g_Total_Tickets :: int
  g_Tickets_Sold :: int
  g_Total_Visitors :: int

text \<open>
  \<open>groupby(...).agg(...).reset_index()\<close>: one row per key, keys ascending; \<open>count\<close> of the
  ticket ids, \<open>sum\<close> of the booleans \<open>Sold\<close>, \<open>sum\<close> of \<open>Visitor_Seats\<close>.
\<close>

definition agg :: "ticket list \<Rightarrow> group_key \<Rightarrow> agg_row" where
  "agg df k =
     \<lparr>g_Seq = fst k, g_Type = fst (snd k), g_Category = fst (snd (snd k)),
      g_Admit = snd (snd (snd k)),
      g_Total_Tickets = int (length (map TicketID (members df k))),
      g_Tickets_Sold = sum_list (map (\<lambda>t. if Sold t then 1 else 0) (members df k)),
      g_Total_Visitors = sum_list (map Visitor_Seats (members df k))\<rparr>"

definition groupby_agg :: "ticket list \<Rightarrow> agg_row list" where
  "groupby_agg df = map (agg df) (group_keys df)"

text \<open>
  A row of the dashboard table. In the rows of the groups \<open>Seq\<close> is a number and \<open>Type\<close> and
  \<open>Category\<close> are set; the totals row has the label in \<open>Seq\<close> and no \<open>Type\<close> or \<open>Category\<close>.
\<close>

record summary_row =
  s_Seq :: seqv
  s_Type :: "string option"
  s_Category :: "string option"
  s_Admit :: int
  s_Total_Tickets :: int
  s_Tickets_Sold :: int
  s_Total_Seats :: int
  s_Seats_sold :: int
  s_Total_Visitors :: int
  s_Balance_Tickets :: int
  s_Balance_Seats :: int
  s_Balance_Visitors :: int

text \<open>The five derived columns, each computed from the columns already there.\<close>

definition derived_columns :: "agg_row \<Rightarrow> summary_row" where
  "derived_columns g =
     (let Total_Seats = g_Total_Tickets g * g_Admit g;
          Seats_sold = g_Tickets_Sold g * g_Admit g;
          Balance_Tickets = g_Total_Tickets g - g_Tickets_Sold g;
          Balance_Seats = Total_Seats - Seats_sold;
          Balance_Visitors = Seats_sold - g_Total_Visitors g
      in \<lparr>s_Seq = SeqNum (g_Seq g), s_Type = Some (g_Type g), s_Category = Some (g_Category g),
          s_Admit = g_Admit g, s_Total_Tickets = g_Total_Tickets g,
          s_Tickets_Sold = g_Tickets_Sold g, s_Total_Seats = Total_Seats,
          s_Seats_sold = Seats_sold, s_Total_Visitors = g_Total_Visitors g,
          s_Balance_Tickets = Balance_Tickets, s_Balance_Seats = Balance_Seats,
          s_Balance_Visitors = Balance_Visitors\<rparr>)"

definition summary :: "ticket list \<Rightarrow> error + summary_row list" where
  "summary df = custom_sort (Some s_Seq) (map derived_columns (groupby_agg df))"

text \<open>
  The sum of every numeric column. \<open>Seq\<close> is numeric and is summed too, but the next
  statement overwrites that cell with the label; \<open>Type\<close> and \<open>Category\<close> are no numbers and
  are missing from the row.
\<close>

definition totals :: "summary_row list \<Rightarrow> summary_row" where
  "totals rows =
     \<lparr>s_Seq = SeqStr ''Total'', s_Type = None, s_Category = None,
      s_Admit = sum_list (map s_Admit rows),
      s_Total_Tickets = sum_list (map s_Total_Tickets rows),
      s_Tickets_Sold = sum_list (map s_Tickets_Sold rows),
      s_Total_Seats = sum_list (map s_Total_Seats rows),
      s_Seats_sold = sum_list (map s_Seats_sold rows),
      s_Total_Visitors = sum_list (map s_Total_Visitors rows),
      s_Balance_Tickets = sum_list (map s_Balance_Tickets rows),
      s_Balance_Seats = sum_list (map s_Balance_Seats rows),
      s_Balance_Visitors = sum_list (map s_Balance_Visitors rows)\<rparr>"

text \<open>
  \<open>pd.concat([summary, totals]).dropna(how='all')\<close>: every row has a \<open>Seq\<close>, so \<open>dropna\<close>
  removes none.
\<close>

definition summary_final :: "ticket list \<Rightarrow> error + summary_row list" where
  "summary_final df =
     (case summary df of
        Inl e \<Rightarrow> Inl e
      | Inr rows \<Rightarrow> Inr (rows @ [totals rows]))"

text \<open>The four columns that identify a row of the dashboard table.\<close>

definition row_key :: "summary_row \<Rightarrow> seqv \<times> string option \<times> string option \<times> int" where
  "row_key r = (s_Seq r, s_Type r, s_Category r, s_Admit r)"

section \<open>Menu derivation\<close>





section \<open>Sample data\<close>

definition ticket_0007 :: ticket where
  "ticket_0007 = \<lparr>TicketID = ''0007'', Type = ''Public'', Category = ''Gold'', Admit = 4,
     Seq = Some 1, Sold = False, Customer = [], Visited = False, Visitor_Seats = 0,
     Timestamp = None\<rparr>"

definition ticket_0008 :: ticket where
  "ticket_0008 = \<lparr>TicketID = ''0008'', Type = ''Guest'', Category = ''Silver'', Admit = 2,
     Seq = Some 0, Sold = True, Customer = ''Bob'', Visited = True, Visitor_Seats = 2,
     Timestamp = Some ''2024-01-01 10:00:00''\<rparr>"

definition demo_menu :: "menu_row list" where
  "demo_menu =
     [\<lparr>m_Type = ''Public'', m_Category = ''Gold'', m_Series = Some ''101-150'', m_Admit = 2,
        m_Alloc = 50, m_Total_Capacity = 100\<rparr>,
      \<lparr>m_Type = ''Guest'', m_Category = ''Silver'', m_Series = None, m_Admit = 2,
        m_Alloc = 0, m_Total_Capacity = 0\<rparr>]"

definition ticket_0001 :: ticket where
  "ticket_0001 = \<lparr>TicketID = ''0001'', Type = ''Public'', Category = ''Gold'', Admit = 4,
     Seq = Some 1, Sold = False, Customer = [], Visited = False, Visitor_Seats = 0,
     Timestamp = None\<rparr>"

definition ticket_0011 :: ticket where
  "ticket_0011 = \<lparr>TicketID = ''0011'', Type = ''Guest'', Category = ''Bronze'', Admit = 3,
     Seq = Some 11, Sold = True, Customer = ''Dee'', Visited = False, Visitor_Seats = 0,
     Timestamp = Some ''2024-01-01 09:00:00''\<rparr>"

definition demo_store :: "ticket list" where
  "demo_store = [ticket_0001, ticket_0007, ticket_0008, ticket_0011]"

definition demo_batch :: "(string \<times> string) list" where
  "demo_batch = [(''1'', ''Bob''), (''0001'', ''Carol''), (''8'', ''Dan''), (''9999'', ''Eve'')]"

definition demo_clock :: "nat \<Rightarrow> string" where
  "demo_clock k = replicate (Suc k) (CHR ''t'')"



definition demo_rows :: "summary_row list" where
  "demo_rows =
     [\<lparr>s_Seq = SeqNum 1, s_Type = Some ''Public'', s_Category = Some ''Gold'', s_Admit = 4,
        s_Total_Tickets = 2, s_Tickets_Sold = 0, s_Total_Seats = 8, s_Seats_sold = 0,
        s_Total_Visitors = 0, s_Balance_Tickets = 2, s_Balance_Seats = 8,
        s_Balance_Visitors = 0\<rparr>,
      \<lparr>s_Seq = SeqNum 0, s_Type = Some ''Guest'', s_Category = Some ''Silver'', s_Admit = 2,
        s_Total_Tickets = 1, s_Tickets_Sold = 1, s_Total_Seats = 2, s_Seats_sold = 2,
        s_Total_Visitors = 2, s_Balance_Tickets = 0, s_Balance_Seats = 0,
        s_Balance_Visitors = 0\<rparr>,
      \<lparr>s_Seq = SeqNum 11, s_Type = Some ''Guest'', s_Category = Some ''Bronze'', s_Admit = 3,
        s_Total_Tickets = 1, s_Tickets_Sold = 1, s_Total_Seats = 3, s_Seats_sold = 3,
        s_Total_Visitors = 0, s_Balance_Tickets = 0, s_Balance_Seats = 0,
        s_Balance_Visitors = 3\<rparr>]"

definition demo_total :: summary_row where
  "demo_total =
     \<lparr>s_Seq = SeqStr ''Total'', s_Type = None, s_Category = None, s_Admit = 9,
      s_Total_Tickets = 4, s_Tickets_Sold = 2, s_Total_Seats = 13, s_Seats_sold = 5,
      s_Total_Visitors = 2, s_Balance_Tickets = 2, s_Balance_Seats = 8,
      s_Balance_Visitors = 3\<rparr>"

section \<open>Properties of the row selection\<close>

lemma find_index_SomeD:
  "find_index P xs = Some i \<Longrightarrow> i < length xs \<and> P (xs ! i) \<and> (\<forall>j<i. \<not> P (xs ! j))"
proof (induction xs arbitrary: i)
  case Nil
  then show ?case by simp
next
  case (Cons x xs)
  show ?case
  proof (cases "P x")
    case True
    with Cons.prems show ?thesis by simp
  next
    case False
    with Cons.prems obtain k where k: "find_index P xs = Some k" "i = Suc k"
      by auto
    from Cons.IH [OF k(1)] False k(2) show ?thesis
      by (auto simp: nth_Cons split: nat.splits)
  qed
qed

lemma find_index_None_iff: "find_index P xs = None \<longleftrightarrow> (\<forall>x\<in>set xs. \<not> P x)"
  by (induction xs) auto

lemma find_index_firstI:
  "i < length xs \<Longrightarrow> P (xs ! i) \<Longrightarrow> (\<forall>j<i. \<not> P (xs ! j)) \<Longrightarrow> find_index P xs = Some i"
proof (induction xs arbitrary: i)
  case Nil
  then show ?case by simp
next
  case (Cons x xs)
  show ?case
  proof (cases i)
    case 0
    with Cons.prems show ?thesis by simp
  next
    case (Suc k)
    with Cons.prems have "\<not> P x" by auto
    moreover from Suc Cons.prems have "find_index P xs = Some k"
      by (intro Cons.IH) auto
    ultimately show ?thesis using Suc by simp
  qed
qed

lemma find_index_distinct:
  assumes "distinct (map f xs)" "i < length xs"
  shows "find_index (\<lambda>x. f x = f (xs ! i)) xs = Some i"
proof (rule find_index_firstI)
  show "i < length xs" by fact
  show "f (xs ! i) = f (xs ! i)" ..
  show "\<forall>j<i. f (xs ! j) \<noteq> f (xs ! i)"
  proof (intro allI impI)
    fix j assume "j < i"
    with assms have "map f xs ! j \<noteq> map f xs ! i"
      by (auto simp: distinct_conv_nth)
    with \<open>j < i\<close> assms(2) show "f (xs ! j) \<noteq> f (xs ! i)" by simp
  qed
qed

lemma first_row_Inr_iff:
  "first_row tickets tid = Inr i \<longleftrightarrow> find_index (\<lambda>t. TicketID t = tid) tickets = Some i"
  by (simp add: first_row_def split: option.splits)

lemma in_avail_iff:
  "tid \<in> set (avail tickets s_type s_cat) \<longleftrightarrow>
     (\<exists>t\<in>set tickets. TicketID t = tid \<and> Type t = s_type \<and> Category t = s_cat \<and> \<not> Sold t)"
  by (auto simp: avail_def)

lemma in_sold_list_iff:
  "tid \<in> set (sold_list tickets) \<longleftrightarrow> (\<exists>t\<in>set tickets. TicketID t = tid \<and> Sold t)"
  by (auto simp: sold_list_def)


lemma in_visited_list_iff:
  "tid \<in> set (visited_list tickets) \<longleftrightarrow> (\<exists>t\<in>set tickets. TicketID t = tid \<and> Visited t)"
  by (auto simp: visited_list_def)

lemmas demo_defs = ticket_0007_def ticket_0008_def demo_menu_def selectable_def type_options_def
  category_options_def

section \<open>Sale and check-in transitions\<close>

text \<open>
  C6. A ticket that is not sold, and is the first row carrying its id (every ticket is, when
  ids are unique), is offered for manual sale under its own type and category; selling it to
  any customer and then reversing the sale gives the table in which that row has
  \<open>Sold = False\<close>, \<open>Customer = ""\<close>, \<open>Timestamp = None\<close> and every other field as at the start,
  and in which no other row has changed.
\<close>

theorem sale_then_reversal_roundtrip:
  assumes "i < length tickets"
    and "find_index (\<lambda>u. TicketID u = TicketID (tickets ! i)) tickets = Some i"
    and "\<not> Sold (tickets ! i)"
    and "selectable menu (Type (tickets ! i)) (Category (tickets ! i))"
  shows "manual_sale menu tickets (Type (tickets ! i)) (Category (tickets ! i)) (TicketID (tickets ! i)) cust now =
           Inr (tickets[i := (tickets ! i)\<lparr>Sold := True, Customer := cust, Timestamp := Some now\<rparr>])
       \<and> reverse_sale (tickets[i := (tickets ! i)\<lparr>Sold := True, Customer := cust, Timestamp := Some now\<rparr>])
             (TicketID (tickets ! i)) =
           Inr (tickets[i := (tickets ! i)\<lparr>Sold := False, Customer := [], Timestamp := None\<rparr>])"
proof -
  let ?t = "tickets ! i"
  let ?s = "?t\<lparr>Sold := True, Customer := cust, Timestamp := Some now\<rparr>"
  from assms(1,3) have av: "TicketID ?t \<in> set (avail tickets (Type ?t) (Category ?t))"
    unfolding in_avail_iff by (intro bexI [of _ "tickets ! i"]) simp_all
  from assms(2) have fr: "first_row tickets (TicketID ?t) = Inr i"
    by (simp add: first_row_Inr_iff)
  have sale: "manual_sale menu tickets (Type ?t) (Category ?t) (TicketID ?t) cust now = Inr (tickets[i := ?s])"
    using av assms(4) fr by (simp add: manual_sale_def sale_mutation_def)
  have fi: "find_index (\<lambda>u. TicketID u = TicketID ?t) (tickets[i := ?s]) = Some i"
  proof (rule find_index_firstI)
    show "i < length (tickets[i := ?s])" using assms(1) by simp
    show "TicketID (tickets[i := ?s] ! i) = TicketID ?t" using assms(1) by simp
    show "\<forall>j<i. TicketID (tickets[i := ?s] ! j) \<noteq> TicketID ?t"
      using find_index_SomeD [OF assms(2)] by simp
  qed
  have "tickets[i := ?s] ! i \<in> set (tickets[i := ?s])"
    using assms(1) by (intro nth_mem) simp
  then have "?s \<in> set (tickets[i := ?s])" using assms(1) by simp
  then have sl: "TicketID ?t \<in> set (sold_list (tickets[i := ?s]))"
    unfolding in_sold_list_iff by (intro bexI [of _ ?s]) simp_all
  have "reverse_sale (tickets[i := ?s]) (TicketID ?t) =
          Inr (tickets[i := ?t\<lparr>Sold := False, Customer := [], Timestamp := None\<rparr>])"
    using sl fi assms(1) by (simp add: reverse_sale_def reverse_sale_mutation_def first_row_def)
  with sale show ?thesis by simp
qed

theorem sale_then_reversal_roundtrip_witness:
  "manual_sale demo_menu [ticket_0007, ticket_0008] ''Public'' ''Gold'' ''0007'' ''Alice'' ''now'' =
     Inr [ticket_0007\<lparr>Sold := True, Customer := ''Alice'', Timestamp := Some ''now''\<rparr>, ticket_0008]
   \<and> reverse_sale [ticket_0007\<lparr>Sold := True, Customer := ''Alice'', Timestamp := Some ''now''\<rparr>, ticket_0008]
        ''0007'' = Inr [ticket_0007, ticket_0008]"
  using sale_then_reversal_roundtrip [of 0 "[ticket_0007, ticket_0008]" demo_menu "''Alice''" "''now''"]
  by (simp add: demo_defs)



text \<open>
  C8. Reversing the entry of a visited ticket (first row of its id) sets \<open>Visited = False\<close> and
  \<open>Visitor_Seats = 0\<close> in that row; \<open>Timestamp\<close>, \<open>Sold\<close>, \<open>Customer\<close> and all remaining fields
  keep their values.
\<close>

theorem reverse_entry_frame:
  assumes "i < length tickets"
    and "find_index (\<lambda>u. TicketID u = TicketID (tickets ! i)) tickets = Some i"
    and "Visited (tickets ! i)"
  shows "reverse_visitor tickets (TicketID (tickets ! i)) =
           Inr (tickets[i := (tickets ! i)\<lparr>Visited := False, Visitor_Seats := 0\<rparr>])
       \<and> (tickets ! i)\<lparr>Visited := False, Visitor_Seats := 0\<rparr> =
           \<lparr>TicketID = TicketID (tickets ! i), Type = Type (tickets ! i),
            Category = Category (tickets ! i), Admit = Admit (tickets ! i), Seq = Seq (tickets ! i),
            Sold = Sold (tickets ! i), Customer = Customer (tickets ! i), Visited = False,
            Visitor_Seats = 0, Timestamp = Timestamp (tickets ! i)\<rparr>"
proof -
  let ?t = "tickets ! i"
  from assms(1,3) have vl: "TicketID ?t \<in> set (visited_list tickets)"
    unfolding in_visited_list_iff by (intro bexI [of _ "tickets ! i"]) simp_all
  from assms(2) have fr: "first_row tickets (TicketID ?t) = Inr i"
    by (simp add: first_row_Inr_iff)
  have "reverse_visitor tickets (TicketID ?t) = Inr (tickets[i := ?t\<lparr>Visited := False, Visitor_Seats := 0\<rparr>])"
    using vl fr by (simp add: reverse_visitor_def reverse_visitor_mutation_def)
  then show ?thesis by simp
qed

theorem reverse_entry_frame_witness:
  "reverse_visitor [ticket_0007, ticket_0008] ''0008'' =
     Inr [ticket_0007, ticket_0008\<lparr>Visited := False, Visitor_Seats := 0\<rparr>]
   \<and> ticket_0008\<lparr>Visited := False, Visitor_Seats := 0\<rparr> =
       \<lparr>TicketID = ''0008'', Type = ''Guest'', Category = ''Silver'', Admit = 2,
        Seq = Some 0, Sold = True, Customer = ''Bob'', Visited = False, Visitor_Seats = 0,
        Timestamp = Some ''2024-01-01 10:00:00''\<rparr>"
  using reverse_entry_frame [of 1 "[ticket_0007, ticket_0008]"]
  by (simp add: demo_defs)

text \<open>
  C10. Whenever a manual sale, a sale reversal, a check-in or an entry reversal on the id
  \<open>tid\<close> goes through, the table keeps its length and every row other than the first row
  with that id is what it was.
\<close>

theorem single_ticket_mutation_frame:
  assumes "r = manual_sale menu tickets s_type s_cat tid cust now
         \<or> r = reverse_sale tickets tid
         \<or> r = checkin menu tickets v_type v_cat tid v now'
         \<or> r = reverse_visitor tickets tid"
    and "r = Inr tickets'"
  shows "\<exists>idx. find_index (\<lambda>t. TicketID t = tid) tickets = Some idx
           \<and> length tickets' = length tickets
           \<and> (\<forall>j. j \<noteq> idx \<longrightarrow> tickets' ! j = tickets ! j)"
proof -
  from assms obtain idx x where fr: "first_row tickets tid = Inr idx" and upd: "tickets' = tickets[idx := x]"
    by (auto simp: manual_sale_def sale_mutation_def reverse_sale_def reverse_sale_mutation_def
        checkin_def checkin_mutation_def reverse_visitor_def reverse_visitor_mutation_def Let_def
        split: if_splits sum.splits)
  from fr have "find_index (\<lambda>t. TicketID t = tid) tickets = Some idx"
    by (simp add: first_row_Inr_iff)
  with upd show ?thesis by simp
qed

theorem single_ticket_mutation_frame_witness:
  "find_index (\<lambda>t. TicketID t = ''0008'') [ticket_0007, ticket_0008] = Some 1
   \<and> reverse_sale [ticket_0007, ticket_0008] ''0008'' =
       Inr [ticket_0007, ticket_0008\<lparr>Sold := False, Customer := [], Timestamp := None\<rparr>]
   \<and> length [ticket_0007, ticket_0008\<lparr>Sold := False, Customer := [], Timestamp := None\<rparr>] = 2
   \<and> [ticket_0007, ticket_0008\<lparr>Sold := False, Customer := [], Timestamp := None\<rparr>] ! 0 =
       [ticket_0007, ticket_0008] ! 0"
proof -
  let ?r = "reverse_sale [ticket_0007, ticket_0008] ''0008''"
  have r: "?r = Inr [ticket_0007, ticket_0008\<lparr>Sold := False, Customer := [], Timestamp := None\<rparr>]"
    by (simp add: reverse_sale_def reverse_sale_mutation_def first_row_def sold_list_def
        ticket_0007_def ticket_0008_def)
  have d: "?r = manual_sale demo_menu [ticket_0007, ticket_0008] ''Guest'' ''Silver'' ''0008'' ''Ann'' ''now''
         \<or> ?r = reverse_sale [ticket_0007, ticket_0008] ''0008''
         \<or> ?r = checkin demo_menu [ticket_0007, ticket_0008] ''Guest'' ''Silver'' ''0008'' 1 ''now''
         \<or> ?r = reverse_visitor [ticket_0007, ticket_0008] ''0008''"
    by simp
  have f: "find_index (\<lambda>t. TicketID t = ''0008'') [ticket_0007, ticket_0008] = Some 1"
    by (simp add: ticket_0007_def ticket_0008_def)
  from single_ticket_mutation_frame [OF d r] obtain idx where
    "find_index (\<lambda>t. TicketID t = ''0008'') [ticket_0007, ticket_0008] = Some idx"
    "\<forall>j. j \<noteq> idx \<longrightarrow>
       [ticket_0007, ticket_0008\<lparr>Sold := False, Customer := [], Timestamp := None\<rparr>] ! j =
       [ticket_0007, ticket_0008] ! j"
    by blast
  with f r show ?thesis by simp
qed

section \<open>The invariant \<open>Visited \<longrightarrow> Sold\<close>\<close>

text \<open>
  C1. Starting from one unsold, unvisited ticket, a manual sale, a check-in and a sale
  reversal lead to a table whose ticket is visited but not sold: the reversal is offered for
  every sold ticket and clears \<open>Sold\<close>, \<open>Customer\<close> and \<open>Timestamp\<close> only.
\<close>

theorem reverse_sale_of_visited_ticket:
  "run demo_menu [ticket_0007]
     [ManualSale ''Public'' ''Gold'' ''0007'' ''Alice'' ''t1'',
      CheckIn ''Public'' ''Gold'' ''0007'' 4 ''t2'',
      ReverseSale ''0007''] =
   [ticket_0007\<lparr>Visited := True, Visitor_Seats := 4\<rparr>]
   \<and> Visited (ticket_0007\<lparr>Visited := True, Visitor_Seats := 4\<rparr>)
   \<and> \<not> Sold (ticket_0007\<lparr>Visited := True, Visitor_Seats := 4\<rparr>)
   \<and> \<not> Sold ticket_0007 \<and> \<not> Visited ticket_0007 \<and> Customer ticket_0007 = []
   \<and> Visitor_Seats ticket_0007 = 0 \<and> Timestamp ticket_0007 = None"
  by (simp add: demo_defs manual_sale_def sale_mutation_def avail_def first_row_def keep_def
      checkin_def checkin_mutation_def elig_def number_input_def reverse_sale_def
      reverse_sale_mutation_def sold_list_def)

section \<open>Bulk sale: properties\<close>

lemma find_index_map: "find_index P (map f xs) = find_index (\<lambda>x. P (f x)) xs"
  by (induction xs) auto

lemma find_index_conj_distinct:
  assumes "distinct (map f xs)"
  shows "find_index (\<lambda>x. f x = a \<and> Q x) xs =
           (case find_index (\<lambda>x. f x = a) xs of
              None \<Rightarrow> None
            | Some j \<Rightarrow> if Q (xs ! j) then Some j else None)"
proof (cases "find_index (\<lambda>x. f x = a) xs")
  case None
  then have "\<forall>x\<in>set xs. \<not> (f x = a \<and> Q x)" by (simp add: find_index_None_iff)
  then have "find_index (\<lambda>x. f x = a \<and> Q x) xs = None" by (simp add: find_index_None_iff)
  with None show ?thesis by simp
next
  case (Some j)
  from find_index_SomeD [OF Some] have j: "j < length xs" "f (xs ! j) = a" "\<forall>l<j. f (xs ! l) \<noteq> a"
    by auto
  show ?thesis
  proof (cases "Q (xs ! j)")
    case True
    from j True have "find_index (\<lambda>x. f x = a \<and> Q x) xs = Some j"
      by (intro find_index_firstI) auto
    with Some True show ?thesis by simp
  next
    case False
    have "\<forall>x\<in>set xs. \<not> (f x = a \<and> Q x)"
    proof
      fix x assume "x \<in> set xs"
      then obtain l where l: "l < length xs" "x = xs ! l" by (auto simp: in_set_conv_nth)
      show "\<not> (f x = a \<and> Q x)"
      proof
        assume h: "f x = a \<and> Q x"
        with l j have "map f xs ! l = map f xs ! j" by simp
        with assms l(1) j(1) have "l = j" by (auto simp: distinct_conv_nth)
        with h l False show False by simp
      qed
    qed
    then have "find_index (\<lambda>x. f x = a \<and> Q x) xs = None" by (simp add: find_index_None_iff)
    with Some False show ?thesis by simp
  qed
qed

lemma bulk_row_distinct:
  assumes "distinct (map TicketID tickets)"
  shows "bulk_row tickets row now =
           (case find_index (\<lambda>t. TicketID t = fst row) tickets of
              None \<Rightarrow> tickets
            | Some j \<Rightarrow>
                if Sold (tickets ! j) then tickets
                else tickets[j := (tickets ! j)\<lparr>Sold := True, Customer := snd row, Timestamp := Some now\<rparr>])"
  unfolding bulk_row_def find_index_conj_distinct [OF assms, of "fst row" "\<lambda>t. \<not> Sold t"]
  by (simp split: option.splits)

lemma map_TicketID_update [simp]:
  "j < length tickets \<Longrightarrow>
   map TicketID (tickets[j := (tickets ! j)\<lparr>Sold := s, Customer := c, Timestamp := ts\<rparr>]) = map TicketID tickets"
  by (simp add: map_update list_update_same_conv)

lemma bulk_row_ids [simp]: "map TicketID (bulk_row tickets row now) = map TicketID tickets"
  by (auto simp: bulk_row_def split: option.splits dest: find_index_SomeD)

lemma bulk_row_length [simp]: "length (bulk_row tickets row now) = length tickets"
  by (simp add: bulk_row_def split: option.splits)

lemma bulk_loop_ids [simp]: "map TicketID (bulk_loop tickets rows clock k) = map TicketID tickets"
  by (induction rows arbitrary: tickets k) simp_all

lemma bulk_loop_length [simp]: "length (bulk_loop tickets rows clock k) = length tickets"
  by (induction rows arbitrary: tickets k) simp_all

lemma bulk_loop_append:
  "bulk_loop tickets (xs @ ys) clock k = bulk_loop (bulk_loop tickets xs clock k) ys clock (k + length xs)"
  by (induction xs arbitrary: tickets k) simp_all

lemma bulk_row_nth:
  assumes "distinct (map TicketID tickets)" "i < length tickets"
  shows "bulk_row tickets row now ! i =
           (if fst row = TicketID (tickets ! i) \<and> \<not> Sold (tickets ! i)
            then (tickets ! i)\<lparr>Sold := True, Customer := snd row, Timestamp := Some now\<rparr>
            else tickets ! i)"
proof (cases "fst row = TicketID (tickets ! i)")
  case True
  have "find_index (\<lambda>t. TicketID t = TicketID (tickets ! i)) tickets = Some i"
    using assms by (rule find_index_distinct)
  with True assms(2) show ?thesis
    by (simp add: bulk_row_distinct [OF assms(1)])
next
  case False
  show ?thesis
  proof (cases "find_index (\<lambda>t. TicketID t = fst row) tickets")
    case None
    with False show ?thesis by (simp add: bulk_row_distinct [OF assms(1)])
  next
    case (Some j)
    from find_index_SomeD [OF Some] False have "j \<noteq> i" by auto
    with Some False show ?thesis by (simp add: bulk_row_distinct [OF assms(1)])
  qed
qed

lemma bulk_loop_nth:
  assumes "distinct (map TicketID tickets)" "i < length tickets"
  shows "bulk_loop tickets rows clock k ! i =
           (case find_index (\<lambda>row. fst row = TicketID (tickets ! i)) rows of
              None \<Rightarrow> tickets ! i
            | Some j \<Rightarrow>
                if Sold (tickets ! i) then tickets ! i
                else (tickets ! i)\<lparr>Sold := True, Customer := snd (rows ! j),
                                   Timestamp := Some (clock (k + j))\<rparr>)"
  using assms
proof (induction rows arbitrary: tickets k)
  case Nil
  then show ?case by simp
next
  case (Cons row rows)
  let ?t' = "bulk_row tickets row (clock k)"
  have d: "distinct (map TicketID ?t')" using Cons.prems(1) by simp
  have l: "i < length ?t'" using Cons.prems(2) by simp
  have id: "TicketID (?t' ! i) = TicketID (tickets ! i)"
    using Cons.prems by (simp add: bulk_row_nth)
  note ih = Cons.IH [OF d l, of "Suc k", unfolded id]
  show ?case
  proof (cases "fst row = TicketID (tickets ! i)")
    case True
    then show ?thesis
      using ih Cons.prems by (simp add: bulk_row_nth split: option.splits)
  next
    case False
    then show ?thesis
      using ih Cons.prems by (simp add: bulk_row_nth split: option.splits)
  qed
qed

text \<open>
  C5. With unique ticket ids, the upload loop handles its rows in order, each id zero-padded
  to four characters first. A row whose id is that of a ticket not sold at that point sets
  that ticket's \<open>Sold\<close>, \<open>Customer\<close> and \<open>Timestamp\<close>; any other row leaves the table as it
  is. Hence, after the whole batch, a ticket that was unsold and whose id occurs in the batch
  carries the customer and time of the first row with its id, and every other ticket is
  exactly what it was.
\<close>

theorem bulk_sale_rows:
  assumes "distinct (map TicketID tickets)"
  shows "bulk_sale tickets (up_df @ [row]) clock =
           (case find_index (\<lambda>t. TicketID t = zfill 4 (fst row)) (bulk_sale tickets up_df clock) of
              None \<Rightarrow> bulk_sale tickets up_df clock
            | Some j \<Rightarrow>
                if Sold (bulk_sale tickets up_df clock ! j) then bulk_sale tickets up_df clock
                else (bulk_sale tickets up_df clock)
                       [j := (bulk_sale tickets up_df clock ! j)
                          \<lparr>Sold := True, Customer := snd row, Timestamp := Some (clock (length up_df))\<rparr>])
       \<and> length (bulk_sale tickets up_df clock) = length tickets
       \<and> (\<forall>i<length tickets.
            bulk_sale tickets up_df clock ! i =
              (case find_index (\<lambda>r. zfill 4 (fst r) = TicketID (tickets ! i)) up_df of
                 None \<Rightarrow> tickets ! i
               | Some k \<Rightarrow>
                   if Sold (tickets ! i) then tickets ! i
                   else (tickets ! i)\<lparr>Sold := True, Customer := snd (up_df ! k),
                                      Timestamp := Some (clock k)\<rparr>))"
proof (intro conjI allI impI)
  let ?cur = "bulk_sale tickets up_df clock"
  have d: "distinct (map TicketID ?cur)"
    using assms by (simp add: bulk_sale_def)
  have "bulk_sale tickets (up_df @ [row]) clock =
          bulk_row ?cur (zfill 4 (fst row), snd row) (clock (length up_df))"
    by (simp add: bulk_sale_def normalise_ids_def bulk_loop_append)
  then show "bulk_sale tickets (up_df @ [row]) clock =
           (case find_index (\<lambda>t. TicketID t = zfill 4 (fst row)) ?cur of
              None \<Rightarrow> ?cur
            | Some j \<Rightarrow>
                if Sold (?cur ! j) then ?cur
                else ?cur[j := (?cur ! j)
                          \<lparr>Sold := True, Customer := snd row, Timestamp := Some (clock (length up_df))\<rparr>])"
    by (simp add: bulk_row_distinct [OF d] split: option.splits)
  show "length ?cur = length tickets" by (simp add: bulk_sale_def)
  fix i assume i: "i < length tickets"
  have fi: "find_index (\<lambda>r. fst r = TicketID (tickets ! i)) (normalise_ids up_df) =
            find_index (\<lambda>r. zfill 4 (fst r) = TicketID (tickets ! i)) up_df"
    by (simp add: normalise_ids_def find_index_map)
  have sn: "\<And>k. find_index (\<lambda>r. zfill 4 (fst r) = TicketID (tickets ! i)) up_df = Some k \<Longrightarrow>
              snd (normalise_ids up_df ! k) = snd (up_df ! k)"
    by (drule find_index_SomeD) (simp add: normalise_ids_def)
  show "?cur ! i =
          (case find_index (\<lambda>r. zfill 4 (fst r) = TicketID (tickets ! i)) up_df of
             None \<Rightarrow> tickets ! i
           | Some k \<Rightarrow>
               if Sold (tickets ! i) then tickets ! i
               else (tickets ! i)\<lparr>Sold := True, Customer := snd (up_df ! k),
                                  Timestamp := Some (clock k)\<rparr>)"
    unfolding bulk_sale_def bulk_loop_nth [OF assms i] fi
    using sn by (simp split: option.splits)
qed

theorem bulk_sale_rows_witness:
  "bulk_sale [ticket_0001, ticket_0008] demo_batch demo_clock ! 0 =
     ticket_0001\<lparr>Sold := True, Customer := ''Bob'', Timestamp := Some ''t''\<rparr>
   \<and> bulk_sale [ticket_0001, ticket_0008] demo_batch demo_clock ! 1 = ticket_0008
   \<and> length (bulk_sale [ticket_0001, ticket_0008] demo_batch demo_clock) = 2"
proof -
  have d: "distinct (map TicketID [ticket_0001, ticket_0008])"
    by (simp add: ticket_0001_def ticket_0008_def)
  note t = bulk_sale_rows [OF d, of demo_batch "(''0'', ''x'')" demo_clock]
  from t have len: "length (bulk_sale [ticket_0001, ticket_0008] demo_batch demo_clock) = 2"
    by simp
  from t have nth: "\<And>i. i < 2 \<Longrightarrow>
      bulk_sale [ticket_0001, ticket_0008] demo_batch demo_clock ! i =
        (case find_index (\<lambda>r. zfill 4 (fst r) = TicketID ([ticket_0001, ticket_0008] ! i)) demo_batch of
           None \<Rightarrow> [ticket_0001, ticket_0008] ! i
         | Some k \<Rightarrow>
             if Sold ([ticket_0001, ticket_0008] ! i) then [ticket_0001, ticket_0008] ! i
             else ([ticket_0001, ticket_0008] ! i)\<lparr>Sold := True, Customer := snd (demo_batch ! k),
                                Timestamp := Some (demo_clock k)\<rparr>)"
    by simp
  have z: "find_index (\<lambda>r. zfill 4 (fst r) = ''0001'') demo_batch = Some 0"
    "find_index (\<lambda>r. zfill 4 (fst r) = ''0008'') demo_batch = Some 2"
    by (simp_all add: demo_batch_def zfill_def eval_nat_numeral)
  have "bulk_sale [ticket_0001, ticket_0008] demo_batch demo_clock ! 0 =
     ticket_0001\<lparr>Sold := True, Customer := ''Bob'', Timestamp := Some ''t''\<rparr>"
    using nth [of 0] z by (simp add: ticket_0001_def demo_batch_def demo_clock_def)
  moreover have "bulk_sale [ticket_0001, ticket_0008] demo_batch demo_clock ! 1 = ticket_0008"
    using nth [of 1] z by (simp add: ticket_0008_def)
  ultimately show ?thesis using len by simp
qed

section \<open>Menu derivation: properties\<close>









section \<open>Inventory reconciler: properties\<close>

lemma assign_sort_key_num:
  "(\<forall>r\<in>set rows. \<exists>n. seq r = SeqNum n) \<Longrightarrow>
   assign_sort_key seq rows = Inr (map (\<lambda>r. (projr (sort_key_of (seq r)), r)) rows)"
  by (induction rows) auto

lemma sort_key_pair: "map snd (sort_key fst (map (\<lambda>r. (f r, r)) xs)) = sort_key f xs"
proof -
  have "sort_key fst (map (\<lambda>r. (f r, r)) xs) = map (\<lambda>r. (f r, r)) (sort_key f xs)"
  proof (induction xs)
    case Nil
    show ?case by simp
  next
    case (Cons x xs)
    have "insort_key fst (f x, x) (map (\<lambda>r. (f r, r)) ys) = map (\<lambda>r. (f r, r)) (insort_key f x ys)" for ys
      by (induction ys) auto
    with Cons show ?case by simp
  qed
  then show ?thesis by (simp add: comp_def)
qed


lemma custom_sort_num:
  assumes "\<forall>r\<in>set rows. \<exists>n. seq r = SeqNum n"
  shows "custom_sort (Some seq) rows = Inr (sort_key (\<lambda>r. projr (sort_key_of (seq r))) rows)"
  by (simp add: custom_sort_def assign_sort_key_num [OF assms] sort_key_pair)

lemma derived_columns_Seq [simp]: "s_Seq (derived_columns g) = SeqNum (g_Seq g)"
  by (simp add: derived_columns_def Let_def)

lemma summary_eq:
  "summary df =
     Inr (sort_key (\<lambda>r. projr (sort_key_of (s_Seq r))) (map derived_columns (groupby_agg df)))"
  unfolding summary_def by (rule custom_sort_num) auto

lemma set_group_keys: "set (group_keys df) = {k. \<exists>t\<in>set df. key_of t = Some k}"
proof -
  have "set (List.map_filter key_of df) = {k. \<exists>t\<in>set df. key_of t = Some k}"
    by (induction df) (auto split: option.splits)
  then show ?thesis by (simp add: group_keys_def)
qed

lemma distinct_group_keys: "distinct (group_keys df)"
  by (simp add: group_keys_def)

lemma set_summary_rows:
  "summary df = Inr rows \<Longrightarrow> set rows = (\<lambda>k. derived_columns (agg df k)) ` set (group_keys df)"
  by (auto simp: summary_eq groupby_agg_def)

lemma sum_list_indicator:
  "sum_list (map (\<lambda>t. if P t then 1 else 0) xs) = int (length (filter P xs))"
  by (induction xs) auto

lemma key_of_eq_iff:
  "key_of t = Some (n, ty, cat, ad) \<longleftrightarrow> Seq t = Some n \<and> Type t = ty \<and> Category t = cat \<and> Admit t = ad"
  by (auto simp: key_of_def split: option.splits)

lemma row_key_derived:
  "row_key (derived_columns (agg df k)) =
     (SeqNum (fst k), Some (fst (snd k)), Some (fst (snd (snd k))), snd (snd (snd k)))"
  by (simp add: row_key_def derived_columns_def agg_def Let_def)

lemma distinct_map_sort_key: "distinct (map g xs) \<Longrightarrow> distinct (map g (sort_key K xs))"
  by (simp add: distinct_map)

lemma distinct_row_keys:
  assumes "summary df = Inr rows"
  shows "distinct (map row_key rows)"
proof -
  let ?K = "\<lambda>r. projr (sort_key_of (s_Seq r))"
  let ?base = "map derived_columns (groupby_agg df)"
  from assms have rows: "rows = sort_key ?K ?base" by (simp add: summary_eq)
  have "inj_on (\<lambda>k. row_key (derived_columns (agg df k))) (set (group_keys df))"
    by (auto simp: inj_on_def row_key_derived prod_eq_iff)
  then have "distinct (map (\<lambda>k. row_key (derived_columns (agg df k))) (group_keys df))"
    by (simp add: distinct_map distinct_group_keys)
  then have d: "distinct (map row_key ?base)"
    by (simp add: groupby_agg_def comp_def)
  then show ?thesis unfolding rows by (rule distinct_map_sort_key)
qed


lemma derived_columns_agg:
  "derived_columns (agg df (n, ty, cat, ad)) =
     \<lparr>s_Seq = SeqNum n, s_Type = Some ty, s_Category = Some cat, s_Admit = ad,
      s_Total_Tickets = int (length (members df (n, ty, cat, ad))),
      s_Tickets_Sold = int (length (filter Sold (members df (n, ty, cat, ad)))),
      s_Total_Seats = int (length (members df (n, ty, cat, ad))) * ad,
      s_Seats_sold = int (length (filter Sold (members df (n, ty, cat, ad)))) * ad,
      s_Total_Visitors = sum_list (map Visitor_Seats (members df (n, ty, cat, ad))),
      s_Balance_Tickets = int (length (members df (n, ty, cat, ad)))
                          - int (length (filter Sold (members df (n, ty, cat, ad)))),
      s_Balance_Seats = int (length (members df (n, ty, cat, ad))) * ad
                        - int (length (filter Sold (members df (n, ty, cat, ad)))) * ad,
      s_Balance_Visitors = int (length (filter Sold (members df (n, ty, cat, ad)))) * ad
                           - sum_list (map Visitor_Seats (members df (n, ty, cat, ad)))\<rparr>"
  by (simp add: derived_columns_def agg_def Let_def sum_list_indicator)

lemma members_eq:
  "members df (n, ty, cat, ad) =
     filter (\<lambda>t. Seq t = Some n \<and> Type t = ty \<and> Category t = cat \<and> Admit t = ad) df"
  by (simp add: members_def key_of_eq_iff)

text \<open>
  C2. The summary never fails. Its rows have pairwise different \<open>(Seq, Type, Category, Admit)\<close>,
  every ticket with a \<open>Seq\<close> belongs to one of them, and in each row \<open>Total_Tickets\<close> is the
  number of tickets of the group (at least one), \<open>Tickets_Sold\<close> the number of sold ones,
  \<open>Total_Visitors\<close> the sum of their \<open>Visitor_Seats\<close>, and the five derived columns obey the
  formulas \<open>Total_Seats = Total_Tickets * Admit\<close>, \<open>Seats_sold = Tickets_Sold * Admit\<close>,
  \<open>Balance_Tickets = Total_Tickets - Tickets_Sold\<close>, \<open>Balance_Seats = Total_Seats - Seats_sold\<close>
  and \<open>Balance_Visitors = Seats_sold - Total_Visitors\<close>.
\<close>

theorem summary_group_rows:
  "\<exists>rows. summary df = Inr rows
     \<and> distinct (map row_key rows)
     \<and> (\<forall>t\<in>set df. \<forall>n. Seq t = Some n \<longrightarrow>
           (SeqNum n, Some (Type t), Some (Category t), Admit t) \<in> row_key ` set rows)
     \<and> (\<forall>r\<in>set rows. \<exists>n ty cat.
           row_key r = (SeqNum n, Some ty, Some cat, s_Admit r)
           \<and> (let grp = filter (\<lambda>t. Seq t = Some n \<and> Type t = ty \<and> Category t = cat
                                      \<and> Admit t = s_Admit r) df
              in grp \<noteq> []
               \<and> s_Total_Tickets r = int (length grp)
               \<and> s_Tickets_Sold r = int (length (filter Sold grp))
               \<and> s_Total_Visitors r = sum_list (map Visitor_Seats grp)
               \<and> s_Total_Seats r = s_Total_Tickets r * s_Admit r
               \<and> s_Seats_sold r = s_Tickets_Sold r * s_Admit r
               \<and> s_Balance_Tickets r = s_Total_Tickets r - s_Tickets_Sold r
               \<and> s_Balance_Seats r = s_Total_Seats r - s_Seats_sold r
               \<and> s_Balance_Visitors r = s_Seats_sold r - s_Total_Visitors r))"
proof -
  obtain rows where rows: "summary df = Inr rows" by (simp add: summary_eq)
  note set_rows = set_summary_rows [OF rows]
  have cover: "\<forall>t\<in>set df. \<forall>n. Seq t = Some n \<longrightarrow>
           (SeqNum n, Some (Type t), Some (Category t), Admit t) \<in> row_key ` set rows"
  proof (intro ballI allI impI)
    fix t n assume t: "t \<in> set df" and n: "Seq t = Some n"
    let ?k = "(n, Type t, Category t, Admit t)"
    from n have "key_of t = Some ?k" by (simp add: key_of_eq_iff)
    with t have "?k \<in> set (group_keys df)" by (auto simp: set_group_keys)
    then have "derived_columns (agg df ?k) \<in> set rows" by (simp add: set_rows)
    then have "row_key (derived_columns (agg df ?k)) \<in> row_key ` set rows" by (rule imageI)
    then show "(SeqNum n, Some (Type t), Some (Category t), Admit t) \<in> row_key ` set rows"
      by (simp add: row_key_derived)
  qed
  have each: "\<forall>r\<in>set rows. \<exists>n ty cat.
           row_key r = (SeqNum n, Some ty, Some cat, s_Admit r)
           \<and> (let grp = filter (\<lambda>t. Seq t = Some n \<and> Type t = ty \<and> Category t = cat
                                      \<and> Admit t = s_Admit r) df
              in grp \<noteq> []
               \<and> s_Total_Tickets r = int (length grp)
               \<and> s_Tickets_Sold r = int (length (filter Sold grp))
               \<and> s_Total_Visitors r = sum_list (map Visitor_Seats grp)
               \<and> s_Total_Seats r = s_Total_Tickets r * s_Admit r
               \<and> s_Seats_sold r = s_Tickets_Sold r * s_Admit r
               \<and> s_Balance_Tickets r = s_Total_Tickets r - s_Tickets_Sold r
               \<and> s_Balance_Seats r = s_Total_Seats r - s_Seats_sold r
               \<and> s_Balance_Visitors r = s_Seats_sold r - s_Total_Visitors r)"
  proof
    fix r assume "r \<in> set rows"
    then obtain k where k: "k \<in> set (group_keys df)" and r: "r = derived_columns (agg df k)"
      by (auto simp: set_rows)
    obtain n ty cat ad where kk: "k = (n, ty, cat, ad)" by (cases k) auto
    from k obtain t where "t \<in> set df" "key_of t = Some k" by (auto simp: set_group_keys)
    then have ne: "members df (n, ty, cat, ad) \<noteq> []"
      unfolding kk members_def by (auto simp: filter_empty_conv)
    have ad: "s_Admit r = ad" by (simp add: r kk derived_columns_agg)
    show "\<exists>n ty cat.
           row_key r = (SeqNum n, Some ty, Some cat, s_Admit r)
           \<and> (let grp = filter (\<lambda>t. Seq t = Some n \<and> Type t = ty \<and> Category t = cat
                                      \<and> Admit t = s_Admit r) df
              in grp \<noteq> []
               \<and> s_Total_Tickets r = int (length grp)
               \<and> s_Tickets_Sold r = int (length (filter Sold grp))
               \<and> s_Total_Visitors r = sum_list (map Visitor_Seats grp)
               \<and> s_Total_Seats r = s_Total_Tickets r * s_Admit r
               \<and> s_Seats_sold r = s_Tickets_Sold r * s_Admit r
               \<and> s_Balance_Tickets r = s_Total_Tickets r - s_Tickets_Sold r
               \<and> s_Balance_Seats r = s_Total_Seats r - s_Seats_sold r
               \<and> s_Balance_Visitors r = s_Seats_sold r - s_Total_Visitors r)"
      apply (rule exI [of _ n], rule exI [of _ ty], rule exI [of _ cat])
      unfolding ad members_eq [symmetric] Let_def
      using ne by (simp add: r kk derived_columns_agg row_key_def)
  qed
  from rows distinct_row_keys [OF rows] cover each show ?thesis by blast
qed

theorem summary_group_rows_witness:
  "summary demo_store = Inr demo_rows \<and> distinct (map row_key demo_rows)
   \<and> s_Total_Tickets (demo_rows ! 0) = 2 \<and> s_Balance_Visitors (demo_rows ! 2) = 3"
proof -
  have ev: "summary demo_store = Inr demo_rows" by code_simp
  from summary_group_rows [of demo_store] obtain rows where
    "summary demo_store = Inr rows" "distinct (map row_key rows)" by blast
  with ev have "distinct (map row_key demo_rows)" by simp
  with ev show ?thesis by (simp add: demo_rows_def)
qed


lemma summary_rows_numeric:
  assumes "summary df = Inr rows" "r \<in> set rows"
  shows "\<exists>n. s_Seq r = SeqNum n"
  using assms by (auto simp: set_summary_rows)


text \<open>
  C4, as the code has it. The last row of the dashboard table is the \<open>Total\<close> row and all
  rows before it carry a numeric \<open>Seq\<close>. These rows are ordered by the sort key, which is
  10 for \<open>Seq = 0\<close> (and for the string \<open>'0'\<close>) and \<open>Seq\<close> itself otherwise: of two groups
  the one with the smaller key comes first. So a group with \<open>Seq = 0\<close> comes after every group
  with \<open>0 < Seq < 10\<close> and before every group with \<open>Seq > 10\<close>, and groups with \<open>Seq\<close> other
  than 0 are in ascending order of \<open>Seq\<close>.
\<close>

theorem summary_final_order:
  assumes "summary_final df = Inr final"
  shows "final \<noteq> [] \<and> s_Seq (last final) = SeqStr ''Total''
       \<and> sort_key_of (SeqNum 0) = Inr 10 \<and> sort_key_of (SeqStr ''0'') = Inr 10
       \<and> (\<forall>i<length final - 1. \<exists>n. s_Seq (final ! i) = SeqNum n)
       \<and> (\<forall>i j a b. i < length final - 1 \<and> j < length final - 1
             \<and> s_Seq (final ! i) = SeqNum a \<and> s_Seq (final ! j) = SeqNum b
             \<and> (if a = 0 then 10 else a) < (if b = 0 then 10 else b) \<longrightarrow> i < j)"
proof -
  let ?K = "\<lambda>r. projr (sort_key_of (s_Seq r))"
  obtain rows where rows: "summary df = Inr rows" by (simp add: summary_eq)
  with assms have fin: "final = rows @ [totals rows]"
    by (simp add: summary_final_def)
  have srt: "sorted (map ?K rows)"
    using rows by (auto simp: summary_eq)
  have num: "\<forall>i<length final - 1. \<exists>n. s_Seq (final ! i) = SeqNum n"
    using summary_rows_numeric [OF rows] by (simp add: fin nth_append)
  have ord: "\<forall>i j a b. i < length final - 1 \<and> j < length final - 1
             \<and> s_Seq (final ! i) = SeqNum a \<and> s_Seq (final ! j) = SeqNum b
             \<and> (if a = 0 then 10 else a) < (if b = 0 then 10 else b) \<longrightarrow> i < j"
  proof (intro allI impI, elim conjE)
    fix i j a b
    assume i: "i < length final - 1" and j: "j < length final - 1"
      and a: "s_Seq (final ! i) = SeqNum a" and b: "s_Seq (final ! j) = SeqNum b"
      and lt: "(if a = 0 then 10 else a) < (if b = 0 then 10 else b)"
    from i j have i': "i < length rows" and j': "j < length rows" by (simp_all add: fin)
    from a b i' j' have ka: "?K (rows ! i) = (if a = 0 then 10 else a)"
      and kb: "?K (rows ! j) = (if b = 0 then 10 else b)"
      by (simp_all add: fin nth_append)
    show "i < j"
    proof (rule ccontr)
      assume "\<not> i < j"
      then have "j \<le> i" by simp
      with srt i' have "map ?K rows ! j \<le> map ?K rows ! i"
        by (intro sorted_nth_mono) simp_all
      with i' j' ka kb lt show False by simp
    qed
  qed
  from num ord show ?thesis by (simp add: fin totals_def)
qed

theorem summary_final_order_witness:
  "summary_final demo_store = Inr (demo_rows @ [demo_total])
   \<and> demo_rows @ [demo_total] \<noteq> []
   \<and> s_Seq (last (demo_rows @ [demo_total])) = SeqStr ''Total''
   \<and> sort_key_of (SeqNum 0) = Inr 10"
proof -
  have ev: "summary_final demo_store = Inr (demo_rows @ [demo_total])" by code_simp
  from summary_final_order [OF ev] ev show ?thesis by simp
qed

text \<open>
  C4 as it is worded fails on the code: for two sold guest tickets with \<open>Seq\<close> 0 and 11 the
  group with \<open>Seq = 0\<close> stands before the group with \<open>Seq = 11\<close>.
\<close>

theorem seq_zero_before_seq_eleven:
  "summary_final [ticket_0008, ticket_0011] =
     Inr [\<lparr>s_Seq = SeqNum 0, s_Type = Some ''Guest'', s_Category = Some ''Silver'', s_Admit = 2,
            s_Total_Tickets = 1, s_Tickets_Sold = 1, s_Total_Seats = 2, s_Seats_sold = 2,
            s_Total_Visitors = 2, s_Balance_Tickets = 0, s_Balance_Seats = 0,
            s_Balance_Visitors = 0\<rparr>,
          \<lparr>s_Seq = SeqNum 11, s_Type = Some ''Guest'', s_Category = Some ''Bronze'', s_Admit = 3,
            s_Total_Tickets = 1, s_Tickets_Sold = 1, s_Total_Seats = 3, s_Seats_sold = 3,
            s_Total_Visitors = 0, s_Balance_Tickets = 0, s_Balance_Seats = 0,
            s_Balance_Visitors = 3\<rparr>,
          \<lparr>s_Seq = SeqStr ''Total'', s_Type = None, s_Category = None, s_Admit = 5,
            s_Total_Tickets = 2, s_Tickets_Sold = 2, s_Total_Seats = 5, s_Seats_sold = 5,
            s_Total_Visitors = 2, s_Balance_Tickets = 0, s_Balance_Seats = 0,
            s_Balance_Visitors = 3\<rparr>]"
  by code_simp

end
